theory Spec2Isabelle
  imports Main "HOL-Library.Word"
begin

unbundle bit_operations_syntax

section \<open>The HCI user-channel socket of linux/hci/socket\<close>

text \<open>
  The embedding follows \<^verbatim>\<open>socket.go\<close> function by function. Go's \<^verbatim>\<open>int\<close> is
  modelled as \<^typ>\<open>int\<close> (descriptors and device indices stay far inside the machine
  range), \<^verbatim>\<open>uintptr\<close> as a word, and every conversion the source writes
  (\<^verbatim>\<open>uintptr(fd)\<close>, \<^verbatim>\<open>uint16(id)\<close>, \<^verbatim>\<open>int32(fd)\<close>) is a \<^const>\<open>word_of_int\<close>.
\<close>

type_synonym uintptr = "64 word"
type_synonym byte = "8 word"

subsection \<open>Request codes\<close>

text \<open>
  \<^verbatim>\<open>func ioR(t, nr, size uintptr) uintptr { return (2 << 30) | (t << 8) | nr | (size << 16) }\<close>
  and its twin \<^verbatim>\<open>ioW\<close> with \<^verbatim>\<open>1 << 30\<close>. The width of \<^verbatim>\<open>uintptr\<close> depends on the
  platform, so both are kept polymorphic in the word length.
\<close>

definition ioR :: "'a::len word \<Rightarrow> 'a word \<Rightarrow> 'a word \<Rightarrow> 'a word" where
  "ioR t nr sz = (((push_bit 30 2) OR (push_bit 8 t)) OR nr) OR (push_bit 16 sz)"

definition ioW :: "'a::len word \<Rightarrow> 'a word \<Rightarrow> 'a word \<Rightarrow> 'a word" where
  "ioW t nr sz = (((push_bit 30 1) OR (push_bit 8 t)) OR nr) OR (push_bit 16 sz)"

definition ioctlSize :: uintptr where "ioctlSize = 4"
definition hciMaxDevices :: nat where "hciMaxDevices = 16"
definition typHCI :: uintptr where "typHCI = 72"

definition hciUpDevice :: uintptr where "hciUpDevice = ioW typHCI 201 ioctlSize"
definition hciDownDevice :: uintptr where "hciDownDevice = ioW typHCI 202 ioctlSize"
definition hciResetDevice :: uintptr where "hciResetDevice = ioW typHCI 203 ioctlSize"
definition hciGetDeviceList :: uintptr where "hciGetDeviceList = ioR typHCI 210 ioctlSize"
definition hciGetDeviceInfo :: uintptr where "hciGetDeviceInfo = ioR typHCI 211 ioctlSize"

subsection \<open>Errors\<close>

text \<open>
  A Go \<^verbatim>\<open>error\<close> is \<^verbatim>\<open>nil\<close> (\<^const>\<open>None\<close>) or one of: an errno of the kernel,
  \<^verbatim>\<open>io.EOF\<close>, the result of \<^verbatim>\<open>errors.Wrap(err, msg)\<close>, the result of
  \<^verbatim>\<open>errors.Errorf\<close>. \<^verbatim>\<open>errors.Wrap\<close> of \<^verbatim>\<open>nil\<close> is \<^verbatim>\<open>nil\<close>.
\<close>

datatype error = Errno nat | EOF | Wrapped error string | Fundamental string

fun errors_Wrap :: "error option \<Rightarrow> string \<Rightarrow> error option" where
  "errors_Wrap None msg = None"
| "errors_Wrap (Some e) msg = Some (Wrapped e msg)"

definition errnoErr :: "nat \<Rightarrow> error option" where
  "errnoErr e = (if e \<noteq> 0 then Some (Errno e) else None)"

text \<open>The text of an error; the errno table of the platform is the parameter \<open>tbl\<close>.\<close>

fun Error :: "(nat \<Rightarrow> string) \<Rightarrow> error \<Rightarrow> string" where
  "Error tbl (Errno n) = tbl n"
| "Error tbl EOF = ''EOF''"
| "Error tbl (Wrapped e msg) = msg @ '': '' @ Error tbl e"
| "Error tbl (Fundamental msg) = msg"

text \<open>The verb \<^verbatim>\<open>%d\<close> of \<^verbatim>\<open>fmt.Sprintf\<close>: decimal digits, a minus sign when negative.\<close>

fun dec :: "nat \<Rightarrow> string" where
  "dec n = (if n < 10 then [''0123456789'' ! n]
            else dec (n div 10) @ [''0123456789'' ! (n mod 10)])"

declare dec.simps [simp del]

definition itoa :: "int \<Rightarrow> string" where
  "itoa i = (if i < 0 then ''-'' @ dec (nat (- i)) else dec (nat i))"

subsection \<open>The kernel, and the log of what was asked of it\<close>

record devListRequest =
  devNum :: "16 word"
  devRequest :: "(16 word \<times> 32 word) list"

datatype mutex = Rmu | Wmu

text \<open>
  Every system call is logged with its arguments and its reply; taking and releasing a
  lock of the handle and closing its channel are logged as well. The log is the whole
  state of the outside world: the kernel's reply to a call is a function of the log so
  far and of the call's arguments, and nothing else is assumed about it.
\<close>

datatype event =
    SysSocket int int int int nat
  | SysIoctl uintptr uintptr uintptr nat
  | SysIoctlDevList uintptr uintptr devListRequest devListRequest nat
  | SysBind int "16 word" "16 word" nat
  | SysPoll "32 word" "16 word" int int "16 word" nat
  | SysRead int nat int "byte list" nat
  | SysWrite int "byte list" int nat
  | SysClose int nat
  | Lock mutex
  | Unlock mutex
  | CloseChan

type_synonym world = "event list"

record sys =
  k_socket :: "world \<Rightarrow> int \<Rightarrow> int \<Rightarrow> int \<Rightarrow> int \<times> nat"
  k_ioctl :: "world \<Rightarrow> uintptr \<Rightarrow> uintptr \<Rightarrow> uintptr \<Rightarrow> nat"
  k_ioctl_devlist :: "world \<Rightarrow> uintptr \<Rightarrow> uintptr \<Rightarrow> devListRequest \<Rightarrow> devListRequest \<times> nat"
  k_bind :: "world \<Rightarrow> int \<Rightarrow> 16 word \<Rightarrow> 16 word \<Rightarrow> nat"
  k_poll :: "world \<Rightarrow> 32 word \<Rightarrow> 16 word \<Rightarrow> int \<Rightarrow> int \<times> 16 word \<times> nat"
  k_read :: "world \<Rightarrow> int \<Rightarrow> nat \<Rightarrow> int \<times> byte list \<times> nat"
  k_write :: "world \<Rightarrow> int \<Rightarrow> byte list \<Rightarrow> int \<times> nat"
  k_close :: "world \<Rightarrow> int \<Rightarrow> nat"
  strerror :: "nat \<Rightarrow> string"

definition AF_BLUETOOTH :: int where "AF_BLUETOOTH = 31"
definition SOCK_RAW :: int where "SOCK_RAW = 3"
definition BTPROTO_HCI :: int where "BTPROTO_HCI = 1"
definition HCI_CHANNEL_USER :: "16 word" where "HCI_CHANNEL_USER = 1"
definition POLLIN :: "16 word" where "POLLIN = 1"

text \<open>The calls of package \<^verbatim>\<open>unix\<close>: ask the kernel, log the call, turn the errno into an error.\<close>

definition unix_Socket :: "sys \<Rightarrow> int \<Rightarrow> int \<Rightarrow> int \<Rightarrow> world \<Rightarrow> (int \<times> error option) \<times> world" where
  "unix_Socket K domain typ proto w =
     (case k_socket K w domain typ proto of
        (r, e) \<Rightarrow> ((r, errnoErr e), w @ [SysSocket domain typ proto r e]))"

definition unix_Bind :: "sys \<Rightarrow> int \<Rightarrow> 16 word \<Rightarrow> 16 word \<Rightarrow> world \<Rightarrow> error option \<times> world" where
  "unix_Bind K s dev channel w =
     (let e = k_bind K w s dev channel in (errnoErr e, w @ [SysBind s dev channel e]))"

text \<open>\<^verbatim>\<open>unix.Poll\<close> on a one-entry slice: the count, the entry's \<^verbatim>\<open>Revents\<close>, the error.\<close>

definition unix_Poll :: "sys \<Rightarrow> 32 word \<Rightarrow> 16 word \<Rightarrow> int \<Rightarrow> world \<Rightarrow> (int \<times> 16 word \<times> error option) \<times> world" where
  "unix_Poll K pfd events timeout w =
     (case k_poll K w pfd events timeout of
        (n, revents, e) \<Rightarrow> ((n, revents, errnoErr e), w @ [SysPoll pfd events timeout n revents e]))"

text \<open>\<^verbatim>\<open>unix.Read(fd, p)\<close>: the kernel fills a prefix of \<open>p\<close> with at most \<open>length p\<close> bytes.\<close>

definition unix_Read :: "sys \<Rightarrow> int \<Rightarrow> byte list \<Rightarrow> world \<Rightarrow> (int \<times> error option) \<times> byte list \<times> world" where
  "unix_Read K s p w =
     (case k_read K w s (length p) of
        (n, bs, e) \<Rightarrow>
          (let got = take (length p) bs
           in ((n, errnoErr e), got @ drop (length got) p, w @ [SysRead s (length p) n got e])))"

definition unix_Write :: "sys \<Rightarrow> int \<Rightarrow> byte list \<Rightarrow> world \<Rightarrow> (int \<times> error option) \<times> world" where
  "unix_Write K s p w =
     (case k_write K w s p of (n, e) \<Rightarrow> ((n, errnoErr e), w @ [SysWrite s p n e]))"

definition unix_Close :: "sys \<Rightarrow> int \<Rightarrow> world \<Rightarrow> error option \<times> world" where
  "unix_Close K s w = (let e = k_close K w s in (errnoErr e, w @ [SysClose s e]))"

text \<open>
  \<^verbatim>\<open>func ioctl(fd, op, arg uintptr) error\<close>: the error is the errno when it is not 0.
  \<open>ioctl_devlist\<close> is the same call when \<open>arg\<close> is the address of a
  \<^verbatim>\<open>devListRequest\<close>, which the kernel may overwrite.
\<close>

definition ioctl :: "sys \<Rightarrow> uintptr \<Rightarrow> uintptr \<Rightarrow> uintptr \<Rightarrow> world \<Rightarrow> error option \<times> world" where
  "ioctl K s op arg w =
     (let ep = k_ioctl K w s op arg
      in (if ep \<noteq> 0 then Some (Errno ep) else None, w @ [SysIoctl s op arg ep]))"

definition ioctl_devlist :: "sys \<Rightarrow> uintptr \<Rightarrow> uintptr \<Rightarrow> devListRequest \<Rightarrow> world \<Rightarrow> (error option \<times> devListRequest) \<times> world" where
  "ioctl_devlist K s op req w =
     (case k_ioctl_devlist K w s op req of
        (req', ep) \<Rightarrow>
          ((if ep \<noteq> 0 then Some (Errno ep) else None, req'), w @ [SysIoctlDevList s op req req' ep]))"

subsection \<open>The handle\<close>

text \<open>
  \<^verbatim>\<open>type Socket struct { fd int; closed chan struct{}; rmu, wmu sync.Mutex }\<close>.
  Nothing is ever sent on the channel, so its state is whether it has been closed. The
  two locks show in the log, as \<^const>\<open>Lock\<close> and \<^const>\<open>Unlock\<close> events.
\<close>

record Socket =
  fd :: int
  closed :: bool

datatype 'a outcome = Returned 'a | Panic

text \<open>
  \<^verbatim>\<open>func open(fd, id int) (*Socket, error)\<close>: down, up, down, bind, poll for 20 ms, read
  100 bytes when \<^verbatim>\<open>POLLIN\<close> is reported, build the handle. The results of
  \<^verbatim>\<open>unix.Poll\<close> and \<^verbatim>\<open>unix.Read\<close> are dropped; only \<^verbatim>\<open>Revents\<close> is looked at.
\<close>

definition open_fd :: "sys \<Rightarrow> int \<Rightarrow> int \<Rightarrow> world \<Rightarrow> (error + Socket) \<times> world" where
  "open_fd K s idx w =
     (case ioctl K (word_of_int s) hciDownDevice (word_of_int idx) w of
        (Some err, w1) \<Rightarrow> (Inl (Wrapped err ''can't down device''), w1)
      | (None, w1) \<Rightarrow>
     (case ioctl K (word_of_int s) hciUpDevice (word_of_int idx) w1 of
        (Some err, w2) \<Rightarrow> (Inl (Wrapped err ''can't up device''), w2)
      | (None, w2) \<Rightarrow>
     (case ioctl K (word_of_int s) hciDownDevice (word_of_int idx) w2 of
        (Some err, w3) \<Rightarrow> (Inl (Wrapped err ''can't down device''), w3)
      | (None, w3) \<Rightarrow>
     (case unix_Bind K s (word_of_int idx) HCI_CHANNEL_USER w3 of
        (Some err, w4) \<Rightarrow> (Inl (Wrapped err ''can't bind socket to hci user channel''), w4)
      | (None, w4) \<Rightarrow>
     (case unix_Poll K (word_of_int s) POLLIN 20 w4 of
        ((n, revents, perr), w5) \<Rightarrow>
          (let w6 = (if 0 < sint (revents AND POLLIN)
                     then snd (snd (unix_Read K s (replicate 100 0) w5))
                     else w5)
           in (Inr \<lparr>fd = s, closed = False\<rparr>, w6)))))))"

text \<open>
  \<^verbatim>\<open>func (s *Socket) Read(p []byte) (int, error)\<close>: the \<^verbatim>\<open>select\<close> with a
  \<^verbatim>\<open>default\<close> branch takes \<^verbatim>\<open>case <-s.closed\<close> exactly when the channel is closed.
  The result carries the buffer as the call leaves it.
\<close>

definition Read :: "sys \<Rightarrow> Socket \<Rightarrow> byte list \<Rightarrow> world \<Rightarrow> (int \<times> error option) \<times> byte list \<times> world" where
  "Read K s p w =
     (if closed s then ((0, Some EOF), p, w)
      else (case unix_Read K (fd s) p (w @ [Lock Rmu]) of
              ((n, err), p', w') \<Rightarrow>
                ((n, errors_Wrap err ''can't read hci socket''), p', w' @ [Unlock Rmu])))"

definition Write :: "sys \<Rightarrow> Socket \<Rightarrow> byte list \<Rightarrow> world \<Rightarrow> (int \<times> error option) \<times> world" where
  "Write K s p w =
     (case unix_Write K (fd s) p (w @ [Lock Wmu]) of
        ((n, err), w') \<Rightarrow> ((n, errors_Wrap err ''can't write hci socket''), w' @ [Unlock Wmu]))"

text \<open>
  \<^verbatim>\<open>func (s *Socket) Close() error\<close>. \<^verbatim>\<open>close(s.closed)\<close> on a channel that is closed
  already panics, and nothing after it runs. Otherwise: the write of the four bytes
  through \<^verbatim>\<open>s.Write\<close>, its result dropped; \<^verbatim>\<open>s.rmu.Lock()\<close>; \<^verbatim>\<open>unix.Close(s.fd)\<close>,
  wrapped; the deferred \<^verbatim>\<open>s.rmu.Unlock()\<close>.
\<close>

definition Close :: "sys \<Rightarrow> Socket \<Rightarrow> world \<Rightarrow> error option outcome \<times> Socket \<times> world" where
  "Close K s w =
     (if closed s then (Panic, s, w)
      else (let s' = s\<lparr>closed := True\<rparr>;
                w1 = snd (Write K s' [0x01, 0x09, 0x10, 0x00] (w @ [CloseChan]));
                (err, w2) = unix_Close K (fd s') (w1 @ [Lock Rmu])
            in (Returned (errors_Wrap err ''can't close hci socket''), s', w2 @ [Unlock Rmu])))"

text \<open>\<^verbatim>\<open>func Up(id int) error\<close> and \<^verbatim>\<open>func Down(id int) error\<close>.\<close>

definition Up :: "sys \<Rightarrow> int \<Rightarrow> world \<Rightarrow> error option \<times> world" where
  "Up K idx w =
     (case unix_Socket K AF_BLUETOOTH SOCK_RAW BTPROTO_HCI w of
        ((s, Some err), w1) \<Rightarrow> (Some (Wrapped err ''can't create socket''), w1)
      | ((s, None), w1) \<Rightarrow>
     (case ioctl K (word_of_int s) hciUpDevice (word_of_int idx) w1 of
        (Some err, w2) \<Rightarrow> (Some (Wrapped err ''can't up device''), w2)
      | (None, w2) \<Rightarrow> unix_Close K s w2))"

definition Down :: "sys \<Rightarrow> int \<Rightarrow> world \<Rightarrow> error option \<times> world" where
  "Down K idx w =
     (case unix_Socket K AF_BLUETOOTH SOCK_RAW BTPROTO_HCI w of
        ((s, Some err), w1) \<Rightarrow> (Some (Wrapped err ''can't create socket''), w1)
      | ((s, None), w1) \<Rightarrow>
     (case ioctl K (word_of_int s) hciDownDevice (word_of_int idx) w1 of
        (Some err, w2) \<Rightarrow> (Some (Wrapped err ''can't down device''), w2)
      | (None, w2) \<Rightarrow> unix_Close K s w2))"

text \<open>
  The loop of \<^verbatim>\<open>NewSocket\<close>,
  \<^verbatim>\<open>for id := 0; id < int(req.devNum); id++ { ... msg = msg + fmt.Sprintf("(hci%d: %s)", id, err) }\<close>,
  from the index \<open>idx\<close> on, and the \<^verbatim>\<open>errors.Errorf\<close> after it.
\<close>

function probe :: "sys \<Rightarrow> int \<Rightarrow> int \<Rightarrow> int \<Rightarrow> string \<Rightarrow> world \<Rightarrow> (error + Socket) \<times> world" where
  "probe K s idx n msg w =
     (if idx < n
      then (case open_fd K s idx w of
              (Inr sock, w') \<Rightarrow> (Inr sock, w')
            | (Inl err, w') \<Rightarrow>
                probe K s (idx + 1) n
                  (msg @ ''(hci'' @ itoa idx @ '': '' @ Error (strerror K) err @ '')'') w')
      else (Inl (Fundamental (''no devices available: '' @ msg)), w))"
  by pat_completeness auto
termination
  by (relation "measure (\<lambda>(K, s, idx, n, msg, w). nat (n - idx))") auto

declare probe.simps [simp del]

text \<open>\<^verbatim>\<open>func NewSocket(id int) (*Socket, error)\<close>.\<close>

definition NewSocket :: "sys \<Rightarrow> int \<Rightarrow> world \<Rightarrow> (error + Socket) \<times> world" where
  "NewSocket K idx w =
     (case unix_Socket K AF_BLUETOOTH SOCK_RAW BTPROTO_HCI w of
        ((s, Some err), w1) \<Rightarrow> (Inl (Wrapped err ''can't create socket''), w1)
      | ((s, None), w1) \<Rightarrow>
          (if idx \<noteq> - 1 then open_fd K s idx w1
           else (case ioctl_devlist K (word_of_int s) hciGetDeviceList
                        \<lparr>devNum = of_nat hciMaxDevices,
                         devRequest = replicate hciMaxDevices (0, 0)\<rparr> w1 of
                   ((Some err, req), w2) \<Rightarrow> (Inl (Wrapped err ''can't get device list''), w2)
                 | ((None, req), w2) \<Rightarrow> probe K s 0 (uint (devNum req)) [] w2)))"

subsection \<open>Vocabulary of the statements\<close>

text \<open>
  \<open>attempts K s k w\<close> is the log after the open sequence has run once on each of the
  indices \<open>0, \<dots>, k - 1\<close>, in this order, on the descriptor \<open>s\<close>, starting from \<open>w\<close>.
\<close>

primrec attempts :: "sys \<Rightarrow> int \<Rightarrow> nat \<Rightarrow> world \<Rightarrow> world" where
  "attempts K s 0 w = w"
| "attempts K s (Suc k) w = snd (open_fd K s (int k) (attempts K s k w))"

text \<open>The entry of the composite message for index \<open>j\<close> whose open failed with \<open>r\<close>.\<close>

definition reason :: "sys \<Rightarrow> nat \<Rightarrow> error + Socket \<Rightarrow> string" where
  "reason K j r = ''(hci'' @ itoa (int j) @ '': '' @ Error (strerror K) (projl r) @ '')''"

fun is_close :: "event \<Rightarrow> bool" where
  "is_close (SysClose s e) = True"
| "is_close ev = False"

text \<open>
  A kernel for the examples: descriptor 3, every call succeeds, three controllers are
  listed, nothing is ready to read. The examples change one reply at a time.
\<close>

definition kernel_ok :: sys where
  "kernel_ok =
     \<lparr>k_socket = (\<lambda>w d t p. (3, 0)),
      k_ioctl = (\<lambda>w s op arg. 0),
      k_ioctl_devlist = (\<lambda>w s op req. (req\<lparr>devNum := 3\<rparr>, 0)),
      k_bind = (\<lambda>w s d c. 0),
      k_poll = (\<lambda>w p e t. (0, 0, 0)),
      k_read = (\<lambda>w s n. (0, [], 0)),
      k_write = (\<lambda>w s p. (int (length p), 0)),
      k_close = (\<lambda>w s. 0),
      strerror = (\<lambda>n. ''errno '' @ dec n)\<rparr>"

text \<open>Controller 0 is held by somebody else: binding to it fails with \<open>EBUSY\<close> (16).\<close>

definition kernel_busy0 :: sys where
  "kernel_busy0 = kernel_ok\<lparr>k_bind := (\<lambda>w s d c. if d = 0 then 16 else 0)\<rparr>"

text \<open>
  Two controllers are listed and neither can be opened: every bind fails with \<open>EBUSY\<close>,
  and every ioctl on index 1 fails with \<open>ENODEV\<close> (19).
\<close>

definition kernel_none :: sys where
  "kernel_none =
     kernel_ok\<lparr>k_ioctl_devlist := (\<lambda>w s op req. (req\<lparr>devNum := 2\<rparr>, 0)),
               k_ioctl := (\<lambda>w s op arg. if arg = 1 then 19 else 0),
               k_bind := (\<lambda>w s d c. 16)\<rparr>"

text \<open>
  The poll reports \<open>POLLIN\<close>, but the read fails with \<open>EAGAIN\<close> (11); writing and
  closing fail with \<open>EIO\<close> (5).
\<close>

definition kernel_io_fail :: sys where
  "kernel_io_fail =
     kernel_ok\<lparr>k_poll := (\<lambda>w p e t. (1, 1, 0)),
               k_read := (\<lambda>w s n. (- 1, [], 11)),
               k_write := (\<lambda>w s p. (- 1, 5)),
               k_close := (\<lambda>w s. 5)\<rparr>"

text \<open>The request as \<open>NewSocket\<close> passes it to the kernel.\<close>

definition req0 :: devListRequest where
  "req0 = \<lparr>devNum = of_nat hciMaxDevices, devRequest = replicate hciMaxDevices (0, 0)\<rparr>"

section \<open>Properties\<close>

subsection \<open>Bits of a request code\<close>

lemma field_bits:
  fixes x :: "'a::len word"
  assumes "unat x < 2 ^ k" and "bit x n"
  shows "n < k"
proof (rule ccontr)
  assume "\<not> n < k"
  then have "k \<le> n" by simp
  from assms(1) have "take_bit k (unat x) = unat x"
    by (simp add: take_bit_nat_eq_self)
  moreover from assms(2) have "bit (unat x) n" by (simp add: bit_unsigned_iff)
  ultimately have "bit (take_bit k (unat x)) n" by simp
  with \<open>k \<le> n\<close> show False by (simp add: bit_take_bit_iff)
qed

lemma field_take_bit:
  fixes x :: "'a::len word"
  assumes "unat x < 2 ^ k"
  shows "x = take_bit k x"
  by (rule bit_word_eqI) (use field_bits [OF assms] in \<open>auto simp add: bit_simps\<close>)

lemma bit_dir2: "bit (push_bit k (2::'a::len word)) n \<longleftrightarrow> n = Suc k \<and> n < LENGTH('a)"
  by (auto simp add: bit_simps)

lemma bit_dir1: "bit (push_bit k (1::'a::len word)) n \<longleftrightarrow> n = k \<and> n < LENGTH('a)"
  by (auto simp add: bit_simps)

lemma bit_ioR:
  "bit (ioR t nr sz :: 'a::len word) n \<longleftrightarrow>
     (n = 31 \<and> n < LENGTH('a)) \<or> (8 \<le> n \<and> n < LENGTH('a) \<and> bit t (n - 8)) \<or> bit nr n
      \<or> (16 \<le> n \<and> n < LENGTH('a) \<and> bit sz (n - 16))"
  unfolding ioR_def bit_or_iff bit_dir2 by (simp add: bit_simps)

lemma bit_ioW:
  "bit (ioW t nr sz :: 'a::len word) n \<longleftrightarrow>
     (n = 30 \<and> n < LENGTH('a)) \<or> (8 \<le> n \<and> n < LENGTH('a) \<and> bit t (n - 8)) \<or> bit nr n
      \<or> (16 \<le> n \<and> n < LENGTH('a) \<and> bit sz (n - 16))"
  unfolding ioW_def bit_or_iff bit_dir1 by (simp add: bit_simps)

lemma ioR_ioW_low:
  "take_bit 30 (ioR t nr sz) = take_bit 30 (ioW t nr sz)"
  by (rule bit_word_eqI) (auto simp add: bit_simps bit_ioR bit_ioW)

lemma ioR_fields:
  fixes t nr sz :: "'a::len word"
  assumes len: "32 \<le> LENGTH('a)"
    and t: "unat t < 2 ^ 8" and nr: "unat nr < 2 ^ 8" and sz: "unat sz < 2 ^ 14"
  shows "take_bit 8 (ioR t nr sz) = nr"
    and "take_bit 8 (drop_bit 8 (ioR t nr sz)) = t"
    and "take_bit 14 (drop_bit 16 (ioR t nr sz)) = sz"
    and "drop_bit 30 (ioR t nr sz) = 2"
proof -
  obtain t' nr' sz' where eqs: "t = take_bit 8 t'" "nr = take_bit 8 nr'" "sz = take_bit 14 sz'"
    using field_take_bit [OF t] field_take_bit [OF nr] field_take_bit [OF sz] by blast
  show "take_bit 8 (ioR t nr sz) = nr"
    unfolding eqs by (rule bit_word_eqI) (use len in \<open>auto simp add: bit_simps bit_ioR\<close>)
  show "take_bit 8 (drop_bit 8 (ioR t nr sz)) = t"
    unfolding eqs by (rule bit_word_eqI) (use len in \<open>auto simp add: bit_simps bit_ioR\<close>)
  show "take_bit 14 (drop_bit 16 (ioR t nr sz)) = sz"
    unfolding eqs by (rule bit_word_eqI) (use len in \<open>auto simp add: bit_simps bit_ioR\<close>)
  show "drop_bit 30 (ioR t nr sz) = 2"
    unfolding eqs by (rule bit_word_eqI) (use len in \<open>auto simp add: bit_simps bit_ioR\<close>)
qed

lemma ioW_fields:
  fixes t nr sz :: "'a::len word"
  assumes len: "32 \<le> LENGTH('a)"
    and t: "unat t < 2 ^ 8" and nr: "unat nr < 2 ^ 8" and sz: "unat sz < 2 ^ 14"
  shows "take_bit 8 (ioW t nr sz) = nr"
    and "take_bit 8 (drop_bit 8 (ioW t nr sz)) = t"
    and "take_bit 14 (drop_bit 16 (ioW t nr sz)) = sz"
    and "drop_bit 30 (ioW t nr sz) = 1"
proof -
  obtain t' nr' sz' where eqs: "t = take_bit 8 t'" "nr = take_bit 8 nr'" "sz = take_bit 14 sz'"
    using field_take_bit [OF t] field_take_bit [OF nr] field_take_bit [OF sz] by blast
  show "take_bit 8 (ioW t nr sz) = nr"
    unfolding eqs by (rule bit_word_eqI) (use len in \<open>auto simp add: bit_simps bit_ioW\<close>)
  show "take_bit 8 (drop_bit 8 (ioW t nr sz)) = t"
    unfolding eqs by (rule bit_word_eqI) (use len in \<open>auto simp add: bit_simps bit_ioW\<close>)
  show "take_bit 14 (drop_bit 16 (ioW t nr sz)) = sz"
    unfolding eqs by (rule bit_word_eqI) (use len in \<open>auto simp add: bit_simps bit_ioW\<close>)
  show "drop_bit 30 (ioW t nr sz) = 1"
    unfolding eqs by (rule bit_word_eqI) (use len in \<open>auto simp add: bit_simps bit_ioW\<close>)
qed

subsection \<open>The functions, step by step\<close>

lemmas kernel_defs = kernel_ok_def kernel_busy0_def kernel_none_def kernel_io_fail_def

lemma pollin_bit: "0 < sint ((revents :: 16 word) AND POLLIN) \<longleftrightarrow> bit revents 0"
proof (cases "bit revents 0")
  case True
  then have "revents AND 1 = 1" by (simp add: and_one_eq bit_0 mod_2_eq_odd)
  with True show ?thesis by (simp add: POLLIN_def)
next
  case False
  then have "revents AND 1 = 0" by (simp add: and_one_eq bit_0 mod_2_eq_odd)
  with False show ?thesis by (simp add: POLLIN_def)
qed

lemma open_fd_unfold:
  "open_fd K s idx w =
     (let e1 = k_ioctl K w (word_of_int s) hciDownDevice (word_of_int idx);
          w1 = w @ [SysIoctl (word_of_int s) hciDownDevice (word_of_int idx) e1];
          e2 = k_ioctl K w1 (word_of_int s) hciUpDevice (word_of_int idx);
          w2 = w1 @ [SysIoctl (word_of_int s) hciUpDevice (word_of_int idx) e2];
          e3 = k_ioctl K w2 (word_of_int s) hciDownDevice (word_of_int idx);
          w3 = w2 @ [SysIoctl (word_of_int s) hciDownDevice (word_of_int idx) e3];
          e4 = k_bind K w3 s (word_of_int idx) HCI_CHANNEL_USER;
          w4 = w3 @ [SysBind s (word_of_int idx) HCI_CHANNEL_USER e4];
          pr = k_poll K w4 (word_of_int s) POLLIN 20;
          w5 = w4 @ [SysPoll (word_of_int s) POLLIN 20 (fst pr) (fst (snd pr)) (snd (snd pr))];
          rd = k_read K w5 s 100;
          w6 = w5 @ [SysRead s 100 (fst rd) (take 100 (fst (snd rd))) (snd (snd rd))]
      in if e1 \<noteq> 0 then (Inl (Wrapped (Errno e1) ''can't down device''), w1)
         else if e2 \<noteq> 0 then (Inl (Wrapped (Errno e2) ''can't up device''), w2)
         else if e3 \<noteq> 0 then (Inl (Wrapped (Errno e3) ''can't down device''), w3)
         else if e4 \<noteq> 0 then (Inl (Wrapped (Errno e4) ''can't bind socket to hci user channel''), w4)
         else (Inr \<lparr>fd = s, closed = False\<rparr>,
               if 0 < sint (fst (snd pr) AND POLLIN) then w6 else w5))"
  by (auto simp add: open_fd_def ioctl_def unix_Bind_def unix_Poll_def unix_Read_def errnoErr_def
        Let_def split: prod.splits)

lemmas eval_defs = unix_Socket_def ioctl_devlist_def errnoErr_def open_fd_unfold Let_def
  itoa_def dec.simps reason_def

lemma Close_unfold:
  "\<not> closed s \<Longrightarrow> Close K s w =
     (let w1 = w @ [CloseChan, Lock Wmu];
          wr = k_write K w1 (fd s) [0x01, 0x09, 0x10, 0x00];
          w2 = w1 @ [SysWrite (fd s) [0x01, 0x09, 0x10, 0x00] (fst wr) (snd wr), Unlock Wmu, Lock Rmu];
          e = k_close K w2 (fd s)
      in (Returned (if e = 0 then None else Some (Wrapped (Errno e) ''can't close hci socket'')),
          s\<lparr>closed := True\<rparr>, w2 @ [SysClose (fd s) e, Unlock Rmu]))"
  by (simp add: Close_def Write_def unix_Write_def unix_Close_def errnoErr_def Let_def
        split: prod.splits)

lemma NewSocket_unfold:
  "NewSocket K idx w =
     (let sk = k_socket K w AF_BLUETOOTH SOCK_RAW BTPROTO_HCI;
          w1 = w @ [SysSocket AF_BLUETOOTH SOCK_RAW BTPROTO_HCI (fst sk) (snd sk)];
          rq = \<lparr>devNum = of_nat hciMaxDevices, devRequest = replicate hciMaxDevices (0, 0)\<rparr>;
          dl = k_ioctl_devlist K w1 (word_of_int (fst sk)) hciGetDeviceList rq;
          w2 = w1 @ [SysIoctlDevList (word_of_int (fst sk)) hciGetDeviceList rq (fst dl) (snd dl)]
      in if snd sk \<noteq> 0 then (Inl (Wrapped (Errno (snd sk)) ''can't create socket''), w1)
         else if idx \<noteq> - 1 then open_fd K (fst sk) idx w1
         else if snd dl \<noteq> 0 then (Inl (Wrapped (Errno (snd dl)) ''can't get device list''), w2)
         else probe K (fst sk) 0 (uint (devNum (fst dl))) [] w2)"
  by (auto simp add: NewSocket_def unix_Socket_def ioctl_devlist_def errnoErr_def Let_def
        split: prod.splits)

lemma NewSocket_auto:
  assumes "unix_Socket K AF_BLUETOOTH SOCK_RAW BTPROTO_HCI w = ((s, None), w1)"
    and "ioctl_devlist K (word_of_int s) hciGetDeviceList
           \<lparr>devNum = of_nat hciMaxDevices, devRequest = replicate hciMaxDevices (0, 0)\<rparr> w1 =
         ((None, req), w2)"
  shows "NewSocket K (- 1) w = probe K s 0 (uint (devNum req)) [] w2"
  using assms by (simp add: NewSocket_def)

subsection \<open>No descriptor is released while opening\<close>

lemma open_fd_extends: "\<exists>evs. snd (open_fd K s idx w) = w @ evs \<and> filter is_close evs = []"
  by (simp add: open_fd_unfold Let_def)

lemma open_fd_no_close: "filter is_close (snd (open_fd K s idx w)) = filter is_close w"
  using open_fd_extends [of K s idx w] by auto

lemma probe_no_close: "filter is_close (snd (probe K s idx n msg w)) = filter is_close w"
proof (induction K s idx n msg w rule: probe.induct)
  case (1 K s idx n msg w)
  show ?case
  proof (cases "idx < n")
    case False
    then show ?thesis by (simp add: probe.simps)
  next
    case True
    obtain r w' where o: "open_fd K s idx w = (r, w')" by (cases "open_fd K s idx w")
    have w': "filter is_close w' = filter is_close w"
      using open_fd_no_close [of K s idx w] o by simp
    show ?thesis
    proof (cases r)
      case (Inr sock)
      with True o w' show ?thesis by (simp add: probe.simps)
    next
      case (Inl err)
      with True o have "probe K s idx n msg w =
          probe K s (idx + 1) n
            (msg @ ''(hci'' @ itoa idx @ '': '' @ Error (strerror K) err @ '')'') w'"
        by (simp add: probe.simps)
      moreover have "filter is_close (snd (probe K s (idx + 1) n
            (msg @ ''(hci'' @ itoa idx @ '': '' @ Error (strerror K) err @ '')'') w')) =
          filter is_close w'"
        using "1.IH" [OF True o [symmetric] Inl] by simp
      ultimately show ?thesis using w' by simp
    qed
  qed
qed

subsection \<open>The loop over the listed controllers\<close>

lemma int_le_uint: "k \<le> unat x \<Longrightarrow> int k \<le> uint x"
  by (metis of_nat_le_iff uint_nat)

text \<open>
  While the opens on \<open>i, \<dots>, k - 1\<close> fail, the loop started at \<open>i\<close> is the loop started at
  \<open>k\<close>, with their reasons appended to the message.
\<close>

lemma probe_skip_failed:
  assumes "i \<le> k" and "int k \<le> n"
    and "\<forall>j. i \<le> j \<and> j < k \<longrightarrow> isl (fst (open_fd K s (int j) (attempts K s j w)))"
  shows "probe K s (int i) n msg (attempts K s i w) =
         probe K s (int k) n
           (msg @ concat (map (\<lambda>j. reason K j (fst (open_fd K s (int j) (attempts K s j w)))) [i..<k]))
           (attempts K s k w)"
  using assms
proof (induction k rule: dec_induct)
  case base
  show ?case by simp
next
  case (step m)
  obtain r w' where o: "open_fd K s (int m) (attempts K s m w) = (r, w')"
    by (cases "open_fd K s (int m) (attempts K s m w)")
  from step.prems step.hyps have "isl r" using o by auto
  then obtain err where r: "r = Inl err" by (cases r) auto
  from step.prems have lt: "int m < n" by simp
  have "probe K s (int i) n msg (attempts K s i w) =
        probe K s (int m) n
          (msg @ concat (map (\<lambda>j. reason K j (fst (open_fd K s (int j) (attempts K s j w)))) [i..<m]))
          (attempts K s m w)"
    using step.IH step.prems by simp
  also have "\<dots> = probe K s (int (Suc m)) n
          (msg @ concat (map (\<lambda>j. reason K j (fst (open_fd K s (int j) (attempts K s j w)))) [i..<Suc m]))
          (attempts K s (Suc m) w)"
    using lt o r step.hyps
    by (subst probe.simps) (simp add: reason_def add.commute)
  finally show ?case .
qed

section \<open>The claims\<close>

subsection \<open>Close\<close>




subsection \<open>The descriptor on the failure paths of NewSocket\<close>

text \<open>
  C2, as the code has it. Neither \<open>NewSocket\<close> nor the open sequence ever closes a
  descriptor: the close events of the log are the same after the call as before it,
  for every kernel, every index and every outcome. On its failure paths \<open>NewSocket\<close>
  returns the error and leaves the raw socket open.
\<close>

theorem NewSocket_never_closes:
  "filter is_close (snd (NewSocket K idx w)) = filter is_close w \<and>
   filter is_close (snd (open_fd K s idx w)) = filter is_close w"
  by (simp add: NewSocket_unfold Let_def open_fd_no_close probe_no_close)

text \<open>
  C2, as the spec states it, fails: two controllers are listed, the open sequence fails
  on both, the composite error is returned, and descriptor 3 has not been closed.
\<close>

theorem NewSocket_no_close_counterexample:
  "fst (NewSocket kernel_none (- 1) []) =
     Inl (Fundamental ''no devices available: (hci0: can't bind socket to hci user channel: errno 16)(hci1: can't down device: errno 19)'') \<and>
   snd (NewSocket kernel_none (- 1) []) =
     [SysSocket AF_BLUETOOTH SOCK_RAW BTPROTO_HCI 3 0,
      SysIoctlDevList 3 hciGetDeviceList req0 (req0\<lparr>devNum := 2\<rparr>) 0,
      SysIoctl 3 hciDownDevice 0 0, SysIoctl 3 hciUpDevice 0 0, SysIoctl 3 hciDownDevice 0 0,
      SysBind 3 0 HCI_CHANNEL_USER 16,
      SysIoctl 3 hciDownDevice 1 19] \<and>
   SysClose 3 0 \<notin> set (snd (NewSocket kernel_none (- 1) []))"
  by (simp add: NewSocket_unfold Let_def kernel_defs req0_def probe.simps open_fd_unfold
        itoa_def dec.simps)

subsection \<open>Up and Down\<close>

text \<open>
  C3. When the socket is created and the ioctl succeeds but closing the socket fails,
  \<open>Up\<close> and \<open>Down\<close> return the kernel's error as it is, \<open>Errno 5\<close>, with no message
  around it: \<^verbatim>\<open>return unix.Close(fd)\<close>.
\<close>

theorem Up_Down_close_error_unwrapped:
  "Up kernel_io_fail 0 [] =
     (Some (Errno 5),
      [SysSocket AF_BLUETOOTH SOCK_RAW BTPROTO_HCI 3 0, SysIoctl 3 hciUpDevice 0 0, SysClose 3 5]) \<and>
   Down kernel_io_fail 0 [] =
     (Some (Errno 5),
      [SysSocket AF_BLUETOOTH SOCK_RAW BTPROTO_HCI 3 0, SysIoctl 3 hciDownDevice 0 0, SysClose 3 5])"
  by (simp add: Up_def Down_def unix_Socket_def ioctl_def unix_Close_def errnoErr_def kernel_defs)

subsection \<open>Picking the first controller that opens\<close>

text \<open>
  C4. \<open>NewSocket (-1)\<close>, once the socket exists and the kernel has listed
  \<open>N = devNum req\<close> controllers: let the open sequence fail on the indices below \<open>k\<close>,
  each run on the log its predecessor left, and succeed on \<open>k\<close> if \<open>k < N\<close>. Then the log
  at the end is the log of one attempt on each of \<open>0, \<dots>, k\<close>, in this order (of
  \<open>0, \<dots>, N - 1\<close> when \<open>k = N\<close>, that is when no open succeeds), all on the descriptor \<open>s\<close>,
  and nothing after it; and when \<open>k < N\<close> the result is the handle of the attempt on \<open>k\<close>.
\<close>

theorem NewSocket_probes_in_order:
  assumes sock: "unix_Socket K AF_BLUETOOTH SOCK_RAW BTPROTO_HCI w = ((s, None), w1)"
    and dl: "ioctl_devlist K (word_of_int s) hciGetDeviceList
           \<lparr>devNum = of_nat hciMaxDevices, devRequest = replicate hciMaxDevices (0, 0)\<rparr> w1 =
         ((None, req), w2)"
    and k: "k \<le> unat (devNum req)"
    and fail: "\<forall>j<k. isl (fst (open_fd K s (int j) (attempts K s j w2)))"
    and succ: "k < unat (devNum req) \<longrightarrow> \<not> isl (fst (open_fd K s (int k) (attempts K s k w2)))"
  shows "snd (NewSocket K (- 1) w) = attempts K s (min (Suc k) (unat (devNum req))) w2 \<and>
         (k < unat (devNum req) \<longrightarrow>
            fst (NewSocket K (- 1) w) = fst (open_fd K s (int k) (attempts K s k w2)))"
proof -
  let ?N = "unat (devNum req)"
  let ?msg = "concat (map (\<lambda>j. reason K j (fst (open_fd K s (int j) (attempts K s j w2)))) [0..<k])"
  have "probe K s (int 0) (uint (devNum req)) [] (attempts K s 0 w2) =
        probe K s (int k) (uint (devNum req)) ([] @ ?msg) (attempts K s k w2)"
    by (rule probe_skip_failed) (use k fail in \<open>auto simp add: int_le_uint\<close>)
  then have eq: "NewSocket K (- 1) w = probe K s (int k) (uint (devNum req)) ?msg (attempts K s k w2)"
    by (simp add: NewSocket_auto [OF sock dl])
  show ?thesis
  proof (cases "k < ?N")
    case False
    with k have kN: "k = ?N" by simp
    then have "int k = uint (devNum req)" by (simp only: uint_nat)
    with eq have "NewSocket K (- 1) w =
        probe K s (uint (devNum req)) (uint (devNum req)) ?msg (attempts K s k w2)"
      by (simp only:)
    then have "snd (NewSocket K (- 1) w) = attempts K s k w2"
      by (simp add: probe.simps [of K s "uint (devNum req)" "uint (devNum req)"])
    with False kN show ?thesis by (simp only: min_def) simp
  next
    case True
    then have lt: "int k < uint (devNum req)" by (simp only: uint_nat of_nat_less_iff)
    from True succ obtain h w' where o: "open_fd K s (int k) (attempts K s k w2) = (Inr h, w')"
      by (cases "open_fd K s (int k) (attempts K s k w2)";
          cases "fst (open_fd K s (int k) (attempts K s k w2))") auto
    from eq lt o have "NewSocket K (- 1) w = (Inr h, w')"
      by (simp add: probe.simps [of K s "int k" "uint (devNum req)"])
    with True o show ?thesis by (simp add: min_def)
  qed
qed

text \<open>
  Three controllers are listed and controller 0 is busy: index 0 is tried and fails at
  the bind, index 1 is tried and opens, index 2 is never tried.
\<close>

theorem NewSocket_probes_in_order_witness:
  "isl (fst (open_fd kernel_busy0 3 0
         [SysSocket AF_BLUETOOTH SOCK_RAW BTPROTO_HCI 3 0,
          SysIoctlDevList 3 hciGetDeviceList req0 (req0\<lparr>devNum := 3\<rparr>) 0])) \<and>
   NewSocket kernel_busy0 (- 1) [] =
     (Inr \<lparr>fd = 3, closed = False\<rparr>,
      [SysSocket AF_BLUETOOTH SOCK_RAW BTPROTO_HCI 3 0,
       SysIoctlDevList 3 hciGetDeviceList req0 (req0\<lparr>devNum := 3\<rparr>) 0,
       SysIoctl 3 hciDownDevice 0 0, SysIoctl 3 hciUpDevice 0 0, SysIoctl 3 hciDownDevice 0 0,
       SysBind 3 0 HCI_CHANNEL_USER 16,
       SysIoctl 3 hciDownDevice 1 0, SysIoctl 3 hciUpDevice 1 0, SysIoctl 3 hciDownDevice 1 0,
       SysBind 3 1 HCI_CHANNEL_USER 0,
       SysPoll 3 POLLIN 20 0 0 0])"
proof -
  let ?w1 = "[SysSocket AF_BLUETOOTH SOCK_RAW BTPROTO_HCI 3 0]"
  let ?w2 = "?w1 @ [SysIoctlDevList 3 hciGetDeviceList req0 (req0\<lparr>devNum := 3\<rparr>) 0]"
  have sock: "unix_Socket kernel_busy0 AF_BLUETOOTH SOCK_RAW BTPROTO_HCI [] = ((3, None), ?w1)"
    by (simp add: eval_defs kernel_defs)
  have dl: "ioctl_devlist kernel_busy0 (word_of_int 3) hciGetDeviceList
              \<lparr>devNum = of_nat hciMaxDevices, devRequest = replicate hciMaxDevices (0, 0)\<rparr> ?w1 =
            ((None, req0\<lparr>devNum := 3\<rparr>), ?w2)"
    by (simp add: eval_defs kernel_defs req0_def)
  have k: "1 \<le> unat (devNum (req0\<lparr>devNum := 3\<rparr>))" by simp
  have fail: "\<forall>j<1. isl (fst (open_fd kernel_busy0 3 (int j) (attempts kernel_busy0 3 j ?w2)))"
    by (simp add: eval_defs kernel_defs)
  have succ: "1 < unat (devNum (req0\<lparr>devNum := 3\<rparr>)) \<longrightarrow>
      \<not> isl (fst (open_fd kernel_busy0 3 (int 1) (attempts kernel_busy0 3 1 ?w2)))"
    by (simp add: eval_defs kernel_defs)
  have a1: "attempts kernel_busy0 3 (Suc 0) ?w2 =
      ?w2 @ [SysIoctl 3 hciDownDevice 0 0, SysIoctl 3 hciUpDevice 0 0, SysIoctl 3 hciDownDevice 0 0,
             SysBind 3 0 HCI_CHANNEL_USER 16]"
    by (simp add: eval_defs kernel_defs)
  have o1: "open_fd kernel_busy0 3 1 (attempts kernel_busy0 3 (Suc 0) ?w2) =
      (Inr \<lparr>fd = 3, closed = False\<rparr>,
       attempts kernel_busy0 3 (Suc 0) ?w2 @
         [SysIoctl 3 hciDownDevice 1 0, SysIoctl 3 hciUpDevice 1 0, SysIoctl 3 hciDownDevice 1 0,
          SysBind 3 1 HCI_CHANNEL_USER 0, SysPoll 3 POLLIN 20 0 0 0])"
    unfolding a1 by (simp add: eval_defs kernel_defs)
  have "min (Suc 1) (unat (devNum (req0\<lparr>devNum := 3\<rparr>))) = Suc (Suc 0)" by simp
  with NewSocket_probes_in_order [OF sock dl k fail succ]
  have "snd (NewSocket kernel_busy0 (- 1) []) = attempts kernel_busy0 3 (Suc (Suc 0)) ?w2"
    and "fst (NewSocket kernel_busy0 (- 1) []) =
         fst (open_fd kernel_busy0 3 1 (attempts kernel_busy0 3 (Suc 0) ?w2))"
    by simp_all
  then have "NewSocket kernel_busy0 (- 1) [] =
      open_fd kernel_busy0 3 1 (attempts kernel_busy0 3 (Suc 0) ?w2)"
    by (simp add: prod_eq_iff)
  with o1 a1 fail show ?thesis by simp
qed

subsection \<open>The composite error\<close>

text \<open>
  C5. \<open>NewSocket (-1)\<close>, once the socket exists and the kernel has listed
  \<open>N = devNum req\<close> controllers: when the open sequence fails on every index below \<open>N\<close>,
  each run on the log its predecessor left, the result is one error, made by
  \<open>errors.Errorf\<close>, whose text is \<open>no devices available: \<close> followed by the entries
  \<open>(hci<j>: <text of the error of the open on j>)\<close> for \<open>j = 0, \<dots>, N - 1\<close>, in this
  order, with nothing between them.
\<close>

theorem NewSocket_all_fail:
  assumes sock: "unix_Socket K AF_BLUETOOTH SOCK_RAW BTPROTO_HCI w = ((s, None), w1)"
    and dl: "ioctl_devlist K (word_of_int s) hciGetDeviceList
           \<lparr>devNum = of_nat hciMaxDevices, devRequest = replicate hciMaxDevices (0, 0)\<rparr> w1 =
         ((None, req), w2)"
    and fail: "\<forall>j<unat (devNum req). isl (fst (open_fd K s (int j) (attempts K s j w2)))"
  shows "fst (NewSocket K (- 1) w) =
         Inl (Fundamental (''no devices available: '' @
           concat (map (\<lambda>j. reason K j (fst (open_fd K s (int j) (attempts K s j w2))))
                     [0..<unat (devNum req)])))"
proof -
  let ?N = "unat (devNum req)"
  have "probe K s (int 0) (uint (devNum req)) [] (attempts K s 0 w2) =
        probe K s (int ?N) (uint (devNum req))
          ([] @ concat (map (\<lambda>j. reason K j (fst (open_fd K s (int j) (attempts K s j w2)))) [0..<?N]))
          (attempts K s ?N w2)"
    by (rule probe_skip_failed) (use fail in auto)
  then show ?thesis
    by (simp add: NewSocket_auto [OF sock dl] probe.simps [of K s "uint (devNum req)"])
qed

theorem NewSocket_all_fail_witness:
  "isl (fst (open_fd kernel_none 3 0
         [SysSocket AF_BLUETOOTH SOCK_RAW BTPROTO_HCI 3 0,
          SysIoctlDevList 3 hciGetDeviceList req0 (req0\<lparr>devNum := 2\<rparr>) 0])) \<and>
   isl (fst (open_fd kernel_none 3 1
         [SysSocket AF_BLUETOOTH SOCK_RAW BTPROTO_HCI 3 0,
          SysIoctlDevList 3 hciGetDeviceList req0 (req0\<lparr>devNum := 2\<rparr>) 0,
          SysIoctl 3 hciDownDevice 0 0, SysIoctl 3 hciUpDevice 0 0, SysIoctl 3 hciDownDevice 0 0,
          SysBind 3 0 HCI_CHANNEL_USER 16])) \<and>
   fst (NewSocket kernel_none (- 1) []) =
     Inl (Fundamental ''no devices available: (hci0: can't bind socket to hci user channel: errno 16)(hci1: can't down device: errno 19)'')"
proof -
  let ?w1 = "[SysSocket AF_BLUETOOTH SOCK_RAW BTPROTO_HCI 3 0]"
  let ?w2 = "[SysSocket AF_BLUETOOTH SOCK_RAW BTPROTO_HCI 3 0,
              SysIoctlDevList 3 hciGetDeviceList req0 (req0\<lparr>devNum := 2\<rparr>) 0]"
  have sock: "unix_Socket kernel_none AF_BLUETOOTH SOCK_RAW BTPROTO_HCI [] = ((3, None), ?w1)"
    by (simp add: eval_defs kernel_defs)
  have dl: "ioctl_devlist kernel_none (word_of_int 3) hciGetDeviceList
              \<lparr>devNum = of_nat hciMaxDevices, devRequest = replicate hciMaxDevices (0, 0)\<rparr> ?w1 =
            ((None, req0\<lparr>devNum := 2\<rparr>), ?w2)"
    by (simp add: eval_defs kernel_defs req0_def)
  have f0: "isl (fst (open_fd kernel_none 3 0 ?w2))"
    by (simp add: eval_defs kernel_defs)
  have f1: "isl (fst (open_fd kernel_none 3 1
         (?w2 @ [SysIoctl 3 hciDownDevice 0 0, SysIoctl 3 hciUpDevice 0 0,
                 SysIoctl 3 hciDownDevice 0 0, SysBind 3 0 HCI_CHANNEL_USER 16])))"
    by (simp add: eval_defs kernel_defs)
  have fail: "\<forall>j<unat (devNum (req0\<lparr>devNum := 2\<rparr>)).
      isl (fst (open_fd kernel_none 3 (int j) (attempts kernel_none 3 j ?w2)))"
    by (simp add: eval_defs kernel_defs less_2_cases_iff)
  have N: "[0..<unat (devNum (req0\<lparr>devNum := 2\<rparr>))] = [0, Suc 0]"
    by (simp add: upt_rec)
  have r: "concat (map (\<lambda>j. reason kernel_none j
              (fst (open_fd kernel_none 3 (int j) (attempts kernel_none 3 j ?w2)))) [0, Suc 0]) =
           ''(hci0: can't bind socket to hci user channel: errno 16)(hci1: can't down device: errno 19)''"
    by (simp add: eval_defs kernel_defs)
  have "fst (NewSocket kernel_none (- 1) []) =
     Inl (Fundamental (''no devices available: '' @
       ''(hci0: can't bind socket to hci user channel: errno 16)(hci1: can't down device: errno 19)''))"
    using NewSocket_all_fail [OF sock dl fail] unfolding N r .
  with f0 f1 show ?thesis by simp
qed

subsection \<open>Read codes and write codes\<close>

text \<open>
  C6. On a platform whose \<open>uintptr\<close> has at least 32 bits, for a type tag and an
  operation number below \<open>2^8\<close> and a size below \<open>2^14\<close>: the code built by \<open>ioR\<close> and the
  code built by \<open>ioW\<close> hold the operation number in bits 0 to 7, the type tag in bits 8
  to 15 and the size in bits 16 to 29, so that their low 30 bits are equal; what is
  above is the direction, 2 for \<open>ioR\<close> and 1 for \<open>ioW\<close>. Both are functions of their
  three arguments and of nothing else.
\<close>

theorem ioR_ioW_differ_in_direction_only:
  fixes t nr sz :: "'a::len word"
  assumes "32 \<le> LENGTH('a)"
    and "unat t < 2 ^ 8" and "unat nr < 2 ^ 8" and "unat sz < 2 ^ 14"
  shows "take_bit 8 (ioR t nr sz) = nr \<and> take_bit 8 (ioW t nr sz) = nr \<and>
         take_bit 8 (drop_bit 8 (ioR t nr sz)) = t \<and> take_bit 8 (drop_bit 8 (ioW t nr sz)) = t \<and>
         take_bit 14 (drop_bit 16 (ioR t nr sz)) = sz \<and>
         take_bit 14 (drop_bit 16 (ioW t nr sz)) = sz \<and>
         take_bit 30 (ioR t nr sz) = take_bit 30 (ioW t nr sz) \<and>
         drop_bit 30 (ioR t nr sz) = 2 \<and> drop_bit 30 (ioW t nr sz) = 1"
  using ioR_fields [OF assms] ioW_fields [OF assms] ioR_ioW_low [of t nr sz] by simp

theorem ioR_ioW_differ_in_direction_only_witness:
  "32 \<le> LENGTH(64) \<and> unat (72 :: 64 word) < 2 ^ 8 \<and> unat (210 :: 64 word) < 2 ^ 8 \<and>
   unat (4 :: 64 word) < 2 ^ 14 \<and>
   take_bit 30 (ioR 72 210 4 :: 64 word) = take_bit 30 (ioW 72 210 4) \<and>
   drop_bit 30 (ioR 72 210 4 :: 64 word) = 2 \<and> drop_bit 30 (ioW 72 210 4 :: 64 word) = 1 \<and>
   take_bit 8 (drop_bit 8 (ioR 72 210 4 :: 64 word)) = 72"
  using ioR_ioW_differ_in_direction_only [of "72 :: 64 word" 210 4] by simp

subsection \<open>Read after Close\<close>

text \<open>
  C7. Whatever handle \<open>Close\<close> was called on, and whether that call returned or
  panicked, every later \<open>Read\<close> on the handle returns 0 and \<open>io.EOF\<close> at once: the
  buffer and the log are as before the call, so no kernel read happened and the read
  lock was not taken.
\<close>

theorem Read_after_Close_is_EOF:
  "Read K (fst (snd (Close K s w))) p w' = ((0, Some EOF), p, w')"
  by (simp add: Read_def Close_def Let_def split: prod.splits)

subsection \<open>The steps of open\<close>

text \<open>
  C8. \<open>open\<close> asks the kernel, in this order and each time on the log the call before
  left: down, up, down, the bind to the user channel, a poll for \<open>POLLIN\<close> with a
  timeout of 20 ms, and, when the poll reports \<open>POLLIN\<close>, one read into a buffer of 100
  bytes, whose result is dropped; then it returns the handle. With \<open>e1\<close>, \<open>e2\<close>, \<open>e3\<close>
  and \<open>e4\<close> the kernel's replies to the down, the up, the second down and the bind: the
  first of them that is not 0 ends the sequence, its call is the last one in the log,
  and the result is that errno wrapped with the message of the step; when all four are
  0 the log goes on with the poll, and with the read if \<open>POLLIN\<close> is set, and the result
  is the handle.
\<close>

theorem open_fd_steps:
  "let e1 = k_ioctl K w (word_of_int s) hciDownDevice (word_of_int idx);
       w1 = w @ [SysIoctl (word_of_int s) hciDownDevice (word_of_int idx) e1];
       e2 = k_ioctl K w1 (word_of_int s) hciUpDevice (word_of_int idx);
       w2 = w1 @ [SysIoctl (word_of_int s) hciUpDevice (word_of_int idx) e2];
       e3 = k_ioctl K w2 (word_of_int s) hciDownDevice (word_of_int idx);
       w3 = w2 @ [SysIoctl (word_of_int s) hciDownDevice (word_of_int idx) e3];
       e4 = k_bind K w3 s (word_of_int idx) HCI_CHANNEL_USER;
       w4 = w3 @ [SysBind s (word_of_int idx) HCI_CHANNEL_USER e4];
       (n, revents, pe) = k_poll K w4 (word_of_int s) POLLIN 20;
       w5 = w4 @ [SysPoll (word_of_int s) POLLIN 20 n revents pe];
       (m, bs, re) = k_read K w5 s 100;
       w6 = w5 @ [SysRead s 100 m (take 100 bs) re]
   in (e1 \<noteq> 0 \<longrightarrow>
         open_fd K s idx w = (Inl (Wrapped (Errno e1) ''can't down device''), w1)) \<and>
      (e1 = 0 \<and> e2 \<noteq> 0 \<longrightarrow>
         open_fd K s idx w = (Inl (Wrapped (Errno e2) ''can't up device''), w2)) \<and>
      (e1 = 0 \<and> e2 = 0 \<and> e3 \<noteq> 0 \<longrightarrow>
         open_fd K s idx w = (Inl (Wrapped (Errno e3) ''can't down device''), w3)) \<and>
      (e1 = 0 \<and> e2 = 0 \<and> e3 = 0 \<and> e4 \<noteq> 0 \<longrightarrow>
         open_fd K s idx w =
           (Inl (Wrapped (Errno e4) ''can't bind socket to hci user channel''), w4)) \<and>
      (e1 = 0 \<and> e2 = 0 \<and> e3 = 0 \<and> e4 = 0 \<longrightarrow>
         open_fd K s idx w =
           (Inr \<lparr>fd = s, closed = False\<rparr>, if bit revents 0 then w6 else w5))"
  unfolding Let_def case_prod_beta
  by (intro conjI impI; (elim conjE)?; simp add: open_fd_unfold Let_def pollin_bit)

text \<open>
  One run for each way out: the first down refused, the up refused, the second down
  refused, the bind refused, nothing to read, and a read that fails.
\<close>

theorem open_fd_steps_witness:
  "open_fd kernel_none 3 1 [] =
     (Inl (Wrapped (Errno 19) ''can't down device''), [SysIoctl 3 hciDownDevice 1 19]) \<and>
   open_fd (kernel_ok\<lparr>k_ioctl := (\<lambda>w s op arg. if length w = 1 then 13 else 0)\<rparr>) 3 0 [] =
     (Inl (Wrapped (Errno 13) ''can't up device''),
      [SysIoctl 3 hciDownDevice 0 0, SysIoctl 3 hciUpDevice 0 13]) \<and>
   open_fd (kernel_ok\<lparr>k_ioctl := (\<lambda>w s op arg. if length w = 2 then 19 else 0)\<rparr>) 3 0 [] =
     (Inl (Wrapped (Errno 19) ''can't down device''),
      [SysIoctl 3 hciDownDevice 0 0, SysIoctl 3 hciUpDevice 0 0, SysIoctl 3 hciDownDevice 0 19]) \<and>
   open_fd kernel_none 3 0 [] =
     (Inl (Wrapped (Errno 16) ''can't bind socket to hci user channel''),
      [SysIoctl 3 hciDownDevice 0 0, SysIoctl 3 hciUpDevice 0 0, SysIoctl 3 hciDownDevice 0 0,
       SysBind 3 0 HCI_CHANNEL_USER 16]) \<and>
   open_fd kernel_ok 3 0 [] =
     (Inr \<lparr>fd = 3, closed = False\<rparr>,
      [SysIoctl 3 hciDownDevice 0 0, SysIoctl 3 hciUpDevice 0 0, SysIoctl 3 hciDownDevice 0 0,
       SysBind 3 0 HCI_CHANNEL_USER 0, SysPoll 3 POLLIN 20 0 0 0]) \<and>
   open_fd kernel_io_fail 3 0 [] =
     (Inr \<lparr>fd = 3, closed = False\<rparr>,
      [SysIoctl 3 hciDownDevice 0 0, SysIoctl 3 hciUpDevice 0 0, SysIoctl 3 hciDownDevice 0 0,
       SysBind 3 0 HCI_CHANNEL_USER 0, SysPoll 3 POLLIN 20 1 1 0, SysRead 3 100 (- 1) [] 11])"
  using open_fd_steps [of kernel_none "[]" 3 1]
    open_fd_steps [of "kernel_ok\<lparr>k_ioctl := (\<lambda>w s op arg. if length w = 1 then 13 else 0)\<rparr>" "[]" 3 0]
    open_fd_steps [of "kernel_ok\<lparr>k_ioctl := (\<lambda>w s op arg. if length w = 2 then 19 else 0)\<rparr>" "[]" 3 0]
    open_fd_steps [of kernel_none "[]" 3 0]
    open_fd_steps [of kernel_ok "[]" 3 0]
    open_fd_steps [of kernel_io_fail "[]" 3 0]
  by (simp add: Let_def kernel_defs)

subsection \<open>Closing twice\<close>

text \<open>
  C9. A \<open>Close\<close> on a handle that is not closed returns, and closes the channel exactly
  once: one \<open>CloseChan\<close> among the events it logs. Nothing guards a second call: on the
  handle as the first call left it, \<open>Close\<close> panics at \<open>close(s.closed)\<close>, before any
  other step.
\<close>

theorem Close_twice_panics:
  "\<not> closed s \<Longrightarrow>
     (\<exists>e. fst (Close K s w) = Returned e) \<and>
     count_list (drop (length w) (snd (snd (Close K s w)))) CloseChan = 1 \<and>
     Close K (fst (snd (Close K s w))) w' = (Panic, fst (snd (Close K s w)), w')"
  by (simp add: Close_unfold Let_def) (simp add: Close_def)

theorem Close_twice_panics_witness:
  "\<not> closed \<lparr>fd = 3, closed = False\<rparr> \<and>
   fst (Close kernel_ok \<lparr>fd = 3, closed = False\<rparr> []) = Returned None \<and>
   count_list (snd (snd (Close kernel_ok \<lparr>fd = 3, closed = False\<rparr> []))) CloseChan = 1 \<and>
   fst (Close kernel_ok (fst (snd (Close kernel_ok \<lparr>fd = 3, closed = False\<rparr> [])))
          (snd (snd (Close kernel_ok \<lparr>fd = 3, closed = False\<rparr> [])))) = Panic"
  using Close_twice_panics [of "\<lparr>fd = 3, closed = False\<rparr>" kernel_ok "[]"
      "snd (snd (Close kernel_ok \<lparr>fd = 3, closed = False\<rparr> []))"]
  by (simp add: Close_unfold Let_def kernel_ok_def)

subsection \<open>After the bind, open cannot fail\<close>

text \<open>
  C10. When the calls that \<open>open\<close> logs include a bind to the user channel that
  succeeded, the result is the handle on the descriptor, its channel not closed, and
  no error. What the poll and the drain read reply has no part in the result of \<open>open\<close>:
  replacing both replies of the kernel by any others leaves the result as it is.
\<close>

theorem open_fd_after_bind:
  "(SysBind s (word_of_int idx) HCI_CHANNEL_USER 0 \<in> set (drop (length w) (snd (open_fd K s idx w)))
      \<longrightarrow> fst (open_fd K s idx w) = Inr \<lparr>fd = s, closed = False\<rparr>) \<and>
   fst (open_fd (K\<lparr>k_poll := p, k_read := r\<rparr>) s idx w) = fst (open_fd K s idx w)"
  by (simp add: open_fd_unfold Let_def)

text \<open>
  The bind succeeds, the poll reports \<open>POLLIN\<close>, the read fails with \<open>EAGAIN\<close>: the
  handle is returned. The same when the poll itself fails with \<open>EINTR\<close>.
\<close>

theorem open_fd_after_bind_witness:
  "SysBind 3 0 HCI_CHANNEL_USER 0 \<in> set (drop (length []) (snd (open_fd kernel_io_fail 3 0 []))) \<and>
   SysRead 3 100 (- 1) [] 11 \<in> set (snd (open_fd kernel_io_fail 3 0 [])) \<and>
   fst (open_fd kernel_io_fail 3 0 []) = Inr \<lparr>fd = 3, closed = False\<rparr> \<and>
   fst (open_fd (kernel_io_fail\<lparr>k_poll := (\<lambda>w p e t. (- 1, 0, 4)), k_read := (\<lambda>w s n. (0, [], 0))\<rparr>) 3 0 []) =
     Inr \<lparr>fd = 3, closed = False\<rparr>"
  using open_fd_after_bind [where s = 3 and idx = 0 and w = "[]" and K = kernel_io_fail
      and p = "(\<lambda>w p e t. (- 1, 0, 4))" and r = "(\<lambda>w s n. (0, [], 0))"]
  by (simp add: open_fd_unfold Let_def kernel_defs POLLIN_def)

end
